theory Spec2Isabelle
  imports Complex_Main
begin

section \<open>Data model of \<open>AdvancedPersonDetectionSystem\<close>\<close>

text \<open>
  The embedding follows \<open>src/detection_system.py\<close> and \<open>src/app.py\<close>.
  Python floats (\<open>time.time()\<close>, the thresholds, \<open>np.median\<close>) are read as reals,
  Python ints as \<open>int\<close>, lengths and counters as \<open>nat\<close>. Everything the code obtains
  from outside (the camera, the detector, the tracker, the clock, the video writer and
  the Twilio client) is an explicit argument of the operation that consults it.

  The state machine compares the integer \<open>sum(self.de)\<close> with the double-precision
  products \<open>detection_thresh * 0.6\<close> and \<open>detection_thresh * 0.3\<close>. The products are
  read as exact: where the exact product is an integer the double product is that
  integer, and elsewhere it is at least 0.1 away from every integer, so both readings
  order the sum and the product alike.

  Not modelled: the frame contents, the drawing on the frame, the frame rate counter,
  and the filtering inside \<open>detect_persons_yolo\<close>, whose result is an input here.
\<close>

subsection \<open>\<open>collections.deque\<close> with a \<open>maxlen\<close>\<close>

datatype 'a deque = Deque (items: "'a list") (maxlen: nat)

text \<open>The last \<open>n\<close> elements of a list (all of it when it is shorter).\<close>

definition last_n :: "nat \<Rightarrow> 'a list \<Rightarrow> 'a list" where
  "last_n n xs = drop (length xs - n) xs"

text \<open>\<open>deque(iterable, maxlen=n)\<close>: only the last \<open>n\<close> elements are kept.\<close>

definition deque_of :: "'a list \<Rightarrow> nat \<Rightarrow> 'a deque" where
  "deque_of xs n = Deque (last_n n xs) n"

text \<open>\<open>d.append(x)\<close>: a full deque discards its leftmost element.\<close>

definition append_right :: "'a deque \<Rightarrow> 'a \<Rightarrow> 'a deque" where
  "append_right d x = Deque (last_n (maxlen d) (items d @ [x])) (maxlen d)"

text \<open>\<open>d.appendleft(x)\<close>: a full deque discards its rightmost element.\<close>

definition appendleft :: "'a deque \<Rightarrow> 'a \<Rightarrow> 'a deque" where
  "appendleft d x = Deque (take (maxlen d) (x # items d)) (maxlen d)"

text \<open>\<open>sum(d)\<close> on a deque of booleans counts the \<open>True\<close> entries.\<close>

definition sum_bools :: "bool deque \<Rightarrow> nat" where
  "sum_bools d = length (filter (\<lambda>b. b) (items d))"

subsection \<open>The detector object\<close>

record video_writer =
  path :: string
  opened :: bool
  frames_written :: nat

record detection =
  bbox :: "int \<times> int \<times> int \<times> int"
  confidence :: real
  area :: int
  center :: "int \<times> int"

text \<open>
  The fields of \<open>__init__\<close> that the modelled operations read or write.
  \<open>cap_opened\<close> stands for \<open>self.cap and self.cap.isOpened()\<close>, \<open>tracker\<close> for the
  truth value of \<open>self.tracker\<close>, \<open>out\<close> for \<open>self.out\<close> (\<open>None\<close> or a writer object,
  which may have been released), \<open>initial_time\<close> for the start of the exit timer.
\<close>

record detector =
  cap_opened :: bool
  out :: "video_writer option"
  running :: bool
  confidence_threshold :: real
  detection_thresh :: int
  patience :: real
  area_threshold :: int
  status :: bool
  initial_time :: "real option"
  de :: "bool deque"
  person_count_history :: "int deque"
  detection_count :: nat
  entry_time :: "string option"
  tracker :: bool
  twilio_enabled :: bool
  account_sid :: string
  auth_token :: string
  your_num :: string
  twilio_num :: string
  last_alert_time :: real
  alert_cooldown :: real

text \<open>
  \<open>__init__\<close>; the argument says whether \<open>initialize_models\<close> obtained a tracker
  (\<open>ByteTrack()\<close> may raise, which leaves \<open>self.tracker = None\<close>).
\<close>

definition init :: "bool \<Rightarrow> detector" where
  "init tracker_ok =
     \<lparr> cap_opened = False, out = None, running = False,
       confidence_threshold = 0.5, detection_thresh = 8, patience = 5,
       area_threshold = 2000, status = False, initial_time = None,
       de = deque_of (replicate 8 False) 8,
       person_count_history = Deque [] 30,
       detection_count = 0, entry_time = None, tracker = tracker_ok,
       twilio_enabled = False, account_sid = [], auth_token = [],
       your_num = [], twilio_num = [],
       last_alert_time = 0, alert_cooldown = 300 \<rparr>"

section \<open>Temporal smoothing\<close>

text \<open>
  \<open>np.median\<close> of a list of integers: the middle element of the sorted list, or the
  mean of the two middle elements; \<open>nan\<close> (here \<open>None\<close>) for the empty list.
\<close>

definition np_median :: "int list \<Rightarrow> real option" where
  "np_median xs =
     (let s = sort xs; n = length s in
      if n = 0 then None
      else if odd n then Some (of_int (s ! (n div 2)))
      else Some ((of_int (s ! (n div 2 - 1)) + of_int (s ! (n div 2))) / 2))"

text \<open>
  \<open>apply_smart_filtering\<close>: the answer and the detector with the count recorded.
  \<open>list(history)[-5:]\<close> is \<open>last_n 5\<close>; a \<open>nan\<close> median compares false.
\<close>

definition apply_smart_filtering :: "detector \<Rightarrow> int \<Rightarrow> bool \<times> detector" where
  "apply_smart_filtering s person_count =
     (let h = append_right (person_count_history s) person_count;
          s' = s\<lparr>person_count_history := h\<rparr>
      in if length (items h) < 5 then (person_count > 0, s')
         else (let recent_counts = last_n 5 (items h) in
               case np_median recent_counts of
                 None \<Rightarrow> (False, s')
               | Some median_count \<Rightarrow> (median_count > 0, s')))"

text \<open>
  Feeding a sequence of raw counts, one call each: the answers in order and the
  final detector.
\<close>

fun smooth_all :: "detector \<Rightarrow> int list \<Rightarrow> bool list \<times> detector" where
  "smooth_all s [] = ([], s)"
| "smooth_all s (c # cs) =
     (let (b, s') = apply_smart_filtering s c;
          (bs, s'') = smooth_all s' cs
      in (b # bs, s''))"

section \<open>Tracking\<close>

datatype py_error = ValueError | Runtime_failure

text \<open>
  \<open>track_persons\<close>. The second argument of the model is what \<open>self.tracker.update\<close>
  does when it is called: it raises, or it returns the track ids of the tracked
  objects. The frame that the source returns is represented by the list of track ids
  drawn on it. The result is a sum so that a raise of \<open>track_persons\<close> itself would
  be a value \<open>Inl\<close>; the \<open>except Exception\<close> handler turns the tracker's raise into
  the return of line 184.
\<close>

definition track_persons ::
  "detector \<Rightarrow> detection list \<Rightarrow> py_error + int list \<Rightarrow> py_error + (int list \<times> nat)" where
  "track_persons s detections tracker_result =
     (if \<not> tracker s then Inr ([], 0)
      else if detections = [] then Inr ([], 0)
      else (case tracker_result of
              Inr track_ids \<Rightarrow> Inr (track_ids, length detections)
            | Inl e \<Rightarrow> Inr ([], length detections)))"

section \<open>Alert dispatch\<close>

datatype send_result = Not_configured | Cooldown_active | Message_sent | Send_failed

text \<open>\<open>setup_twilio\<close>: a Python string is true when it is not empty.\<close>

definition setup_twilio :: "detector \<Rightarrow> string \<Rightarrow> string \<Rightarrow> string \<Rightarrow> string \<Rightarrow> detector" where
  "setup_twilio s sid token your twilio =
     s\<lparr>account_sid := sid, auth_token := token, your_num := your, twilio_num := twilio,
       twilio_enabled := (sid \<noteq> [] \<and> token \<noteq> [] \<and> your \<noteq> [] \<and> twilio \<noteq> [])\<rparr>"

text \<open>
  \<open>send_message\<close>. \<open>current_time\<close> is the value of \<open>time.time()\<close> at line 117;
  \<open>channel_raises\<close> says whether building the client or \<open>client.messages.create\<close>
  raises. \<open>Message_sent\<close> and \<open>Send_failed\<close> are the two results in which the
  notification channel was called.
\<close>

definition send_message :: "detector \<Rightarrow> string \<Rightarrow> real \<Rightarrow> bool \<Rightarrow> send_result \<times> detector" where
  "send_message s body current_time channel_raises =
     (if \<not> twilio_enabled s then (Not_configured, s)
      else if current_time - last_alert_time s < alert_cooldown s then (Cooldown_active, s)
      else if channel_raises then (Send_failed, s)
      else (Message_sent, s\<lparr>last_alert_time := current_time\<rparr>))"

text \<open>A sequence of dispatch calls, each with its clock reading and channel behaviour.\<close>

fun send_all :: "detector \<Rightarrow> (real \<times> bool) list \<Rightarrow> send_result list \<times> detector" where
  "send_all s [] = ([], s)"
| "send_all s ((t, raises) # calls) =
     (let (r, s') = send_message s [] t raises;
          (rs, s'') = send_all s' calls
      in (r # rs, s''))"

text \<open>The clock readings of the calls whose message was sent, in order.\<close>

fun sent_times :: "detector \<Rightarrow> (real \<times> bool) list \<Rightarrow> real list" where
  "sent_times s [] = []"
| "sent_times s ((t, raises) # calls) =
     (case send_message s [] t raises of
        (Message_sent, s') \<Rightarrow> t # sent_times s' calls
      | (_, s') \<Rightarrow> sent_times s' calls)"

text \<open>How many of the calls reached the notification channel.\<close>

definition attempts :: "send_result list \<Rightarrow> nat" where
  "attempts rs = length (filter (\<lambda>r. r = Message_sent \<or> r = Send_failed) rs)"

section \<open>Frame processing and the occupancy state machine\<close>

text \<open>
  What one call of \<open>process_frame\<close> finds outside the detector object:
  whether the grabber thread has stored a frame, whether anything raises between
  lines 291 and 306 (device query, resize; \<open>detect_persons_yolo\<close> catches its own
  errors), the detections that \<open>detect_persons_yolo\<close> returns, the tracker's
  behaviour, the clock at lines 330 and 332 (at most one of them runs), the formatted
  entry and exit timestamps, whether opening the video writer raises, the clock inside
  \<open>send_message\<close>, the channel's behaviour, and whether drawing the overlay
  (lines 343 to 378) raises.
\<close>

record frame_env =
  latest_frame :: bool
  inference_raises :: bool
  detections :: "detection list"
  tracker_result :: "py_error + int list"
  now :: real
  stamp :: string
  exit_stamp :: string
  writer_raises :: bool
  alert_now :: real
  channel_fails :: bool
  render_raises :: bool

datatype frame_result =
  Camera_not_initialized | No_frame_available | Processing_error | Frame_processed

definition output_dir :: string where
  "output_dir = ''surveillance_outputs''"

text \<open>\<open>self.out.release()\<close> under \<open>if self.out\<close>: the object stays in the field.\<close>

definition release :: "video_writer option \<Rightarrow> video_writer option" where
  "release w = map_option (\<lambda>v. v\<lparr>opened := False\<rparr>) w"

text \<open>Lines 310 to 326: the entry transition. A writer that is built is open.\<close>

definition enter_step :: "detector \<Rightarrow> frame_env \<Rightarrow> detector" where
  "enter_step s env =
     (if real (sum_bools (de s)) \<ge> real_of_int (detection_thresh s) * 0.6 \<and> \<not> status s then
        (let s1 = s\<lparr>status := True, entry_time := Some (stamp env)\<rparr> in
         if writer_raises env then s1
         else s1\<lparr>out := Some \<lparr>path = output_dir @ ''/'' @ stamp env @ ''.mp4'',
                               opened = True, frames_written = 0\<rparr>\<rparr>)
      else s)"

definition alert_body :: "detector \<Rightarrow> frame_env \<Rightarrow> string" where
  "alert_body s env =
     ''Security Alert: Person Entered: ''
       @ (case entry_time s of None \<Rightarrow> ''None'' | Some e \<Rightarrow> e)
       @ '' Person Left: '' @ exit_stamp env @ '' Video saved to '' @ output_dir"

text \<open>Lines 327 to 342: the exit timer, the exit transition and the timer's reset.\<close>

definition leave_step :: "detector \<Rightarrow> frame_env \<Rightarrow> bool \<Rightarrow> detector" where
  "leave_step s env person_detected =
     (if status s \<and> \<not> person_detected then
        (if real (sum_bools (de s)) > real_of_int (detection_thresh s) * 0.3 then
           (if initial_time s = None then s\<lparr>initial_time := Some (now env)\<rparr> else s)
         else (case initial_time s of
                 None \<Rightarrow> s
               | Some t0 \<Rightarrow>
                   if now env - t0 \<ge> patience s then
                     (let s1 = s\<lparr>status := False, out := release (out s),
                                 initial_time := None\<rparr>
                      in snd (send_message s1 (alert_body s1 env) (alert_now env)
                                (channel_fails env)))
                   else s))
      else if status s \<and> real (sum_bools (de s)) > real_of_int (detection_thresh s) * 0.3 then
        s\<lparr>initial_time := None\<rparr>
      else s)"

text \<open>Lines 373 to 377: a released writer ignores the frame.\<close>

definition write_frame :: "detector \<Rightarrow> detector" where
  "write_frame s =
     (if status s then
        (case out s of
           None \<Rightarrow> s
         | Some w \<Rightarrow>
             if opened w then s\<lparr>out := Some (w\<lparr>frames_written := Suc (frames_written w)\<rparr>)\<rparr>
             else s)
      else s)"

text \<open>
  The smoothed presence of the frame and the detector after lines 307 to 309
  (tracking, smoothing, \<open>self.de.appendleft\<close>).
\<close>

definition observe :: "detector \<Rightarrow> frame_env \<Rightarrow> py_error + (bool \<times> detector)" where
  "observe s env =
     (case track_persons s (detections env) (tracker_result env) of
        Inl e \<Rightarrow> Inl e
      | Inr (tracked_frame, person_count) \<Rightarrow>
          (let (person_detected, s1) = apply_smart_filtering s (int person_count)
           in Inr (person_detected, s1\<lparr>de := appendleft (de s1) person_detected\<rparr>)))"

definition process_frame :: "detector \<Rightarrow> frame_env \<Rightarrow> frame_result \<times> detector" where
  "process_frame s env =
     (if \<not> cap_opened s then (Camera_not_initialized, s)
      else if \<not> latest_frame env then (No_frame_available, s)
      else if inference_raises env then (Processing_error, s)
      else (case observe s env of
              Inl e \<Rightarrow> (Processing_error, s)
            | Inr (person_detected, s2) \<Rightarrow>
                (let s3 = enter_step s2 env;
                     s4 = leave_step s3 env person_detected
                 in if render_raises env then (Processing_error, s4)
                    else (let s5 = write_frame s4
                          in (Frame_processed,
                              if person_detected
                              then s5\<lparr>detection_count := Suc (detection_count s5)\<rparr>
                              else s5)))))"

section \<open>Camera control and settings\<close>

datatype camera_outcome = Camera_started | Open_failed | Read_failed | Start_raised

text \<open>
  \<open>start_camera\<close> followed by \<open>start_detection\<close> of \<open>app.py\<close>: the capture is open
  afterwards only when the camera opened and delivered a test frame.
\<close>

definition start_detection :: "detector \<Rightarrow> camera_outcome \<Rightarrow> detector" where
  "start_detection s outcome =
     (if outcome = Camera_started then s\<lparr>cap_opened := True, running := True\<rparr>
      else s\<lparr>cap_opened := False\<rparr>)"

definition stop_camera :: "detector \<Rightarrow> detector" where
  "stop_camera s =
     s\<lparr>running := False, cap_opened := False, out := release (out s), status := False\<rparr>"

text \<open>\<open>int(x)\<close> on a float truncates towards zero.\<close>

definition py_int :: "real \<Rightarrow> int" where
  "py_int x = (if x \<ge> 0 then \<lfloor>x\<rfloor> else \<lceil>x\<rceil>)"

text \<open>
  \<open>update_settings\<close> of \<open>app.py\<close>. The four assignments run first; \<open>deque(..., maxlen=n)\<close>
  raises \<open>ValueError\<close> for a negative \<open>n\<close>, which leaves the old window in place.
\<close>

definition update_settings ::
  "detector \<Rightarrow> real \<Rightarrow> real \<Rightarrow> real \<Rightarrow> real \<Rightarrow> (py_error + string) \<times> detector" where
  "update_settings s conf area_thr pat thresh =
     (let s1 = s\<lparr>confidence_threshold := conf, area_threshold := py_int area_thr,
                 patience := pat, detection_thresh := py_int thresh\<rparr>
      in if detection_thresh s1 < 0 then (Inl ValueError, s1)
         else (Inr ''Settings updated successfully!'',
               s1\<lparr>de := deque_of (replicate (nat (detection_thresh s1)) False)
                            (nat (detection_thresh s1))\<rparr>))"

text \<open>The values that the configuration surface of the specification accepts.\<close>

definition valid_settings :: "real \<Rightarrow> real \<Rightarrow> real \<Rightarrow> real \<Rightarrow> bool" where
  "valid_settings conf area_thr pat thresh \<longleftrightarrow>
     0 < conf \<and> conf \<le> 1 \<and> 0 < area_thr \<and> 0 < pat \<and> 0 < thresh"

section \<open>Reachable detectors\<close>

text \<open>The detectors that the operations of the user interface produce.\<close>

inductive reachable :: "detector \<Rightarrow> bool" where
  r_init: "reachable (init tracker_ok)"
| r_start: "reachable s \<Longrightarrow> reachable (start_detection s outcome)"
| r_stop: "reachable s \<Longrightarrow> reachable (stop_camera s)"
| r_frame: "reachable s \<Longrightarrow> reachable (snd (process_frame s env))"
| r_settings: "reachable s \<Longrightarrow> reachable (snd (update_settings s conf area_thr pat thresh))"
| r_twilio: "reachable s \<Longrightarrow> reachable (setup_twilio s sid token your twilio)"
| r_test_sms: "reachable s \<Longrightarrow> reachable (snd (send_message s body t raises))"

text \<open>A recording is active when \<open>self.out\<close> holds a writer that has not been released.\<close>

definition recording_active :: "detector \<Rightarrow> bool" where
  "recording_active s = (case out s of None \<Rightarrow> False | Some w \<Rightarrow> opened w)"

text \<open>A call of \<open>process_frame\<close> that gets as far as the state machine.\<close>

definition reaches_state_machine :: "detector \<Rightarrow> frame_env \<Rightarrow> bool" where
  "reaches_state_machine s env \<longleftrightarrow> cap_opened s \<and> latest_frame env \<and> \<not> inference_raises env"

text \<open>The presence window and the smoothed presence that the state machine sees.\<close>

definition window :: "detector \<Rightarrow> frame_env \<Rightarrow> bool deque" where
  "window s env = (case observe s env of Inl e \<Rightarrow> de s | Inr (b, s2) \<Rightarrow> de s2)"

definition presence :: "detector \<Rightarrow> frame_env \<Rightarrow> bool" where
  "presence s env = (case observe s env of Inl e \<Rightarrow> False | Inr (b, s2) \<Rightarrow> b)"

definition observed :: "detector \<Rightarrow> frame_env \<Rightarrow> detector" where
  "observed s env = (case observe s env of Inl e \<Rightarrow> s | Inr (b, s2) \<Rightarrow> s2)"

text \<open>The detector after the entry and exit logic of lines 310 to 342.\<close>

definition after_transitions :: "detector \<Rightarrow> frame_env \<Rightarrow> detector" where
  "after_transitions s env =
     leave_step (enter_step (observed s env) env) env (presence s env)"

text \<open>The two comparisons of the state machine, on the window it sees.\<close>

definition entry_level :: "detector \<Rightarrow> frame_env \<Rightarrow> bool" where
  "entry_level s env \<longleftrightarrow>
     real (sum_bools (window s env)) \<ge> real_of_int (detection_thresh s) * 0.6"

definition above_borderline :: "detector \<Rightarrow> frame_env \<Rightarrow> bool" where
  "above_borderline s env \<longleftrightarrow>
     real (sum_bools (window s env)) > real_of_int (detection_thresh s) * 0.3"

text \<open>Running frames one after the other.\<close>

fun run_frames :: "detector \<Rightarrow> frame_env list \<Rightarrow> detector" where
  "run_frames s [] = s"
| "run_frames s (env # envs) = run_frames (snd (process_frame s env)) envs"

text \<open>
  The answer of the smoother in the words of the specification, as a function of all
  the raw counts seen so far (the last one is the current count).
\<close>

definition smoothed_answer :: "int list \<Rightarrow> bool" where
  "smoothed_answer xs =
     (if length xs < 5 then last xs > 0
      else (case np_median (last_n 5 xs) of None \<Rightarrow> False | Some m \<Rightarrow> m > 0))"

text \<open>Concrete inputs for the examples: one detected person, and a detector with alerts set up.\<close>

definition a_person :: detection where
  "a_person = \<lparr>bbox = (100, 100, 200, 400), confidence = 0.9, area = 30000,
                center = (150, 250)\<rparr>"

text \<open>
  Frames for the examples: the camera delivers, nothing raises, \<open>n\<close> persons are
  detected and tracked, and every clock reads \<open>t\<close>.
\<close>

definition frame_at :: "real \<Rightarrow> nat \<Rightarrow> frame_env" where
  "frame_at t n =
     \<lparr>latest_frame = True, inference_raises = False, detections = replicate n a_person,
      tracker_result = Inr (map int [1..<Suc n]), now = t, stamp = ''entry'',
      exit_stamp = ''exit'', writer_raises = False, alert_now = t, channel_fails = False,
      render_raises = False\<rparr>"

definition started :: detector where
  "started = start_detection (init True) Camera_started"

definition armed :: detector where
  "armed = setup_twilio (init True) ''AC00'' ''token'' ''+15550100'' ''+15550199''"

section \<open>The latest-frame slot\<close>

text \<open>
  \<open>self.latest_frame\<close> is written by \<open>threaded_frame_grabber\<close> and read by
  \<open>process_frame\<close>, both times inside \<open>with self.frame_lock\<close>, so a store
  (lines 213 and 214) and a fetch (lines 296 and 297) are atomic steps and a run of the
  two threads is a list of such steps. The slot is kept apart from the detector record.
  \<open>frame_skip\<close> is 1, so each call of \<open>process_frame\<close> fetches once; the field
  \<open>latest_frame\<close> of \<open>frame_env\<close> says whether that fetch returned a frame.
\<close>



text \<open>The atomic steps on the slot: a store of the grabber, a fetch of the consumer.\<close>

datatype 'f step = Store 'f | Fetch





section \<open>Predicates of the state machine\<close>

text \<open>The entry transition fires when the window reaches the entry level in state EMPTY.\<close>

definition fires :: "detector \<Rightarrow> bool" where
  "fires s \<longleftrightarrow> real (sum_bools (de s)) \<ge> real_of_int (detection_thresh s) * 0.6 \<and> \<not> status s"

text \<open>The exit transition of lines 331 to 340 is taken.\<close>

definition exits :: "detector \<Rightarrow> frame_env \<Rightarrow> bool \<Rightarrow> bool" where
  "exits s env pd \<longleftrightarrow>
     status s \<and> \<not> pd \<and> \<not> real (sum_bools (de s)) > real_of_int (detection_thresh s) * 0.3
     \<and> (case initial_time s of None \<Rightarrow> False | Some t0 \<Rightarrow> now env - t0 \<ge> patience s)"

text \<open>An open writer belongs to an occupancy session that has an entry timestamp.\<close>

definition writer_inv :: "detector \<Rightarrow> bool" where
  "writer_inv s \<longleftrightarrow> (recording_active s \<longrightarrow> status s \<and> entry_time s \<noteq> None)"

section \<open>A visit, frame by frame\<close>

text \<open>
  Five frames with one person, then eight frames with nobody, one second apart.
\<close>

definition visit :: "frame_env list" where
  "visit = [frame_at 1 1, frame_at 2 1, frame_at 3 1, frame_at 4 1, frame_at 5 1,
            frame_at 6 0, frame_at 7 0, frame_at 8 0, frame_at 9 0, frame_at 10 0,
            frame_at 11 0, frame_at 12 0, frame_at 13 0]"

text \<open>The same frame when opening the video writer raises.\<close>

definition no_writer :: "frame_env \<Rightarrow> frame_env" where
  "no_writer env = env\<lparr>writer_raises := True\<rparr>"

section \<open>Bounded windows\<close>

lemma length_last_n: "length (last_n n xs) = min (length xs) n"
  by (simp add: last_n_def)

lemma last_n_snoc: "last_n n (last_n n xs @ [c]) = last_n n (xs @ [c])"
proof (cases "length xs \<le> n")
  case True
  then show ?thesis by (simp add: last_n_def)
next
  case False
  then obtain k where k: "length xs = Suc k + n"
    by (metis add.commute less_imp_Suc_add not_le add_Suc_right)
  show ?thesis by (simp add: last_n_def k)
qed

lemma last_n_last_n: "m \<le> n \<Longrightarrow> last_n m (last_n n xs) = last_n m xs"
proof (cases "length xs \<le> n")
  case True
  then show ?thesis by (simp add: last_n_def)
next
  case False
  assume "m \<le> n"
  then obtain j where j: "n = m + j" by (metis le_Suc_ex)
  from False obtain k where k: "length xs = Suc k + n"
    by (metis add.commute less_imp_Suc_add not_le add_Suc_right)
  show ?thesis by (simp add: last_n_def k j ac_simps)
qed

section \<open>The temporal smoother\<close>

text \<open>The median of five integers is the third smallest.\<close>

lemma median5: "length xs = 5 \<Longrightarrow> np_median xs = Some (real_of_int (sort xs ! 2))"
proof -
  assume "length xs = 5"
  then have "length (sort xs) = 5" by simp
  then show ?thesis
    unfolding np_median_def Let_def by simp
qed

text \<open>
  While the 30-slot history holds the last 30 of the counts \<open>pre\<close> seen so far, one
  call answers as the specification says and keeps the history in that form.
\<close>

lemma apply_smart_filtering_hist:
  assumes "person_count_history s = Deque (last_n 30 pre) 30"
  shows "apply_smart_filtering s c =
     (smoothed_answer (pre @ [c]),
      s\<lparr>person_count_history := Deque (last_n 30 (pre @ [c])) 30\<rparr>)"
proof -
  have h: "append_right (person_count_history s) c = Deque (last_n 30 (pre @ [c])) 30"
    unfolding assms append_right_def deque.sel last_n_snoc ..
  have short: "length (last_n 30 (pre @ [c])) < 5 \<longleftrightarrow> length (pre @ [c]) < 5"
    unfolding length_last_n by auto
  have five: "last_n 5 (last_n 30 (pre @ [c])) = last_n 5 (pre @ [c])"
    by (rule last_n_last_n) simp
  show ?thesis
    unfolding apply_smart_filtering_def h Let_def deque.sel short five smoothed_answer_def
    by (simp split: option.splits)
qed

lemma smooth_all_hist:
  "person_count_history s = Deque (last_n 30 pre) 30 \<Longrightarrow>
   fst (smooth_all s cs) =
     map (\<lambda>k. smoothed_answer (pre @ take (Suc k) cs)) [0..<length cs]"
proof (induction cs arbitrary: s pre)
  case Nil
  then show ?case by simp
next
  case (Cons c cs)
  let ?s' = "s\<lparr>person_count_history := Deque (last_n 30 (pre @ [c])) 30\<rparr>"
  have step: "apply_smart_filtering s c = (smoothed_answer (pre @ [c]), ?s')"
    by (rule apply_smart_filtering_hist [OF Cons.prems])
  have "person_count_history ?s' = Deque (last_n 30 (pre @ [c])) 30" by simp
  from Cons.IH [OF this]
  have ih: "fst (smooth_all ?s' cs) =
      map (\<lambda>k. smoothed_answer ((pre @ [c]) @ take (Suc k) cs)) [0..<length cs]" .
  have "fst (smooth_all s (c # cs)) = smoothed_answer (pre @ [c]) # fst (smooth_all ?s' cs)"
    by (simp add: step split: prod.splits)
  also have "\<dots> =
      map (\<lambda>k. smoothed_answer (pre @ take (Suc k) (c # cs))) [0..<length (c # cs)]"
    by (simp add: ih upt_conv_Cons map_Suc_upt [symmetric] del: upt_Suc)
  finally show ?case .
qed

lemma smooth_all_nth:
  assumes "person_count_history s = Deque (last_n 30 pre) 30" and "k < length cs"
  shows "fst (smooth_all s cs) ! k =
     (if length pre + Suc k < 5 then cs ! k > 0
      else sort (last_n 5 (pre @ take (Suc k) cs)) ! 2 > 0)"
proof -
  from smooth_all_hist [OF assms(1), of cs]
  have "fst (smooth_all s cs) ! k = smoothed_answer (pre @ take (Suc k) cs)"
    using assms(2) by simp
  moreover have "length (pre @ take (Suc k) cs) = length pre + Suc k"
    using assms(2) by simp
  moreover have "last (pre @ take (Suc k) cs) = cs ! k"
    using assms(2) by (simp add: take_Suc_conv_app_nth)
  moreover have "\<not> length pre + Suc k < 5 \<Longrightarrow>
      length (last_n 5 (pre @ take (Suc k) cs)) = 5"
    using assms(2) by (simp add: length_last_n)
  ultimately show ?thesis
    by (simp add: smoothed_answer_def median5)
qed

text \<open>
  C3. Let the detector have seen the raw counts \<open>pre\<close> (its history holds the last 30
  of them; \<open>pre = []\<close> for a fresh detector) and let the counts \<open>cs\<close> be fed one
  call after the other. The call for \<open>cs ! k\<close> returns \<open>cs ! k > 0\<close> while fewer than
  five counts have been collected, that call included, and otherwise whether the
  median (the third smallest) of the five most recent counts is positive. On a fresh
  detector the counts 0, 0, 3, 0, 2 give false at the fifth call and the counts
  1, 1, 1, 0, 0 give true.
\<close>

theorem smoother_follows_spec:
  "(person_count_history s = Deque (last_n 30 pre) 30 \<longrightarrow> k < length cs \<longrightarrow>
      fst (smooth_all s cs) ! k =
        (if length pre + Suc k < 5 then cs ! k > 0
         else sort (last_n 5 (pre @ take (Suc k) cs)) ! 2 > 0))
   \<and> fst (smooth_all (init tr) [0, 0, 3, 0, 2]) ! 4 = False
   \<and> fst (smooth_all (init tr) [1, 1, 1, 0, 0]) ! 4 = True"
proof (intro conjI impI)
  assume "person_count_history s = Deque (last_n 30 pre) 30" and "k < length cs"
  then show "fst (smooth_all s cs) ! k =
        (if length pre + Suc k < 5 then cs ! k > 0
         else sort (last_n 5 (pre @ take (Suc k) cs)) ! 2 > 0)"
    by (rule smooth_all_nth)
next
  have h: "person_count_history (init tr) = Deque (last_n 30 []) 30"
    by (simp add: init_def last_n_def)
  show "fst (smooth_all (init tr) [0, 0, 3, 0, 2]) ! 4 = False"
    using smooth_all_nth [OF h, of 4 "[0, 0, 3, 0, 2]"] by (simp add: last_n_def)
  show "fst (smooth_all (init tr) [1, 1, 1, 0, 0]) ! 4 = True"
    using smooth_all_nth [OF h, of 4 "[1, 1, 1, 0, 0]"] by (simp add: last_n_def)
qed

theorem smoother_follows_spec_witness:
  "person_count_history (init True) = Deque (last_n 30 []) 30
   \<and> (5::nat) < length [2, 0, 0, 1, 0, 4 :: int]
   \<and> fst (smooth_all (init True) [2, 0, 0, 1, 0, 4]) ! 5 = False"
  using smoother_follows_spec [of "init True" "[]" 5 "[2, 0, 0, 1, 0, 4]" True]
  by (simp add: init_def last_n_def)

section \<open>Tracking degrades without raising\<close>

text \<open>
  C7, as the code has it. With a tracker present and a non-empty list of observations,
  a raise of the tracker's update is absorbed and the call returns the number of
  observations. Without a tracker the guard of lines 166 to 168 returns the count 0,
  whatever the observations are. In no case does \<open>track_persons\<close> raise.
\<close>

theorem track_persons_degrades:
  "(dets \<noteq> [] \<and> tracker s \<longrightarrow>
      track_persons s dets (Inl e) = Inr ([], length dets))
   \<and> (\<not> tracker s \<longrightarrow> track_persons s dets res = Inr ([], 0))
   \<and> \<not> isl (track_persons s dets res)"
  by (auto simp: track_persons_def split: sum.splits)

theorem track_persons_degrades_witness:
  "[a_person, a_person] \<noteq> [] \<and> tracker (init True)
   \<and> track_persons (init True) [a_person, a_person] (Inl Runtime_failure) = Inr ([], 2)
   \<and> \<not> tracker (init False)
   \<and> track_persons (init False) [a_person, a_person] (Inr [1, 2]) = Inr ([], 0)"
  using track_persons_degrades [of "[a_person, a_person]" "init True" Runtime_failure]
    track_persons_degrades [of "[a_person, a_person]" "init False" Runtime_failure "Inr [1, 2]"]
  by (simp add: init_def)

text \<open>
  C7 as stated fails when the tracker is missing: one observation, count 0.
\<close>

theorem track_persons_uninitialized_counterexample:
  "\<not> tracker (init False) \<and> [a_person] \<noteq> []
   \<and> track_persons (init False) [a_person] (Inl Runtime_failure) = Inr ([], 0)
   \<and> length [a_person] = 1"
  by (simp add: track_persons_def init_def)

section \<open>Alert cooldown\<close>

text \<open>
  C9. When the channel raises during a dispatch, the detector is left exactly as it
  was, \<open>last_alert_time\<close> included, and a later dispatch is not held back by the
  cooldown: it reaches the channel again. \<open>last_alert_time\<close> changes only in a call
  whose message was sent.
\<close>

theorem failed_alert_keeps_cooldown:
  "(fst (send_message s body t True) = Send_failed \<longrightarrow>
      snd (send_message s body t True) = s
      \<and> (t \<le> t' \<longrightarrow>
           fst (send_message (snd (send_message s body t True)) body' t' raises)
             = (if raises then Send_failed else Message_sent)))
   \<and> (last_alert_time (snd (send_message s body t raises)) \<noteq> last_alert_time s \<longrightarrow>
        fst (send_message s body t raises) = Message_sent)"
  by (auto simp: send_message_def split: if_splits)

theorem failed_alert_keeps_cooldown_witness:
  "fst (send_message armed ''left'' 1000 True) = Send_failed
   \<and> last_alert_time (snd (send_message armed ''left'' 1000 True)) = 0
   \<and> (1000::real) \<le> 1010
   \<and> fst (send_message (snd (send_message armed ''left'' 1000 True)) ''left again'' 1010 False)
        = Message_sent
   \<and> last_alert_time (snd (send_message armed ''left'' 1000 False)) \<noteq> last_alert_time armed
   \<and> fst (send_message armed ''left'' 1000 False) = Message_sent"
  using failed_alert_keeps_cooldown [of armed "''left''" 1000 1010 "''left again''" False]
  by (simp add: send_message_def armed_def setup_twilio_def init_def)

lemma fst_send_message_sent:
  "fst (send_message s body t raises) = Message_sent \<longleftrightarrow>
     twilio_enabled s \<and> alert_cooldown s \<le> t - last_alert_time s \<and> \<not> raises"
  by (simp add: send_message_def not_less)

lemma snd_send_message:
  "snd (send_message s body t raises) =
     (if fst (send_message s body t raises) = Message_sent
      then s\<lparr>last_alert_time := t\<rparr> else s)"
  by (simp add: send_message_def)

lemma send_message_cooldown:
  "twilio_enabled s \<Longrightarrow> t - last_alert_time s < alert_cooldown s \<Longrightarrow>
   send_message s body t raises = (Cooldown_active, s)"
  by (simp add: send_message_def)

lemma sent_times_Cons:
  "sent_times s ((t, raises) # calls) =
     (if fst (send_message s [] t raises) = Message_sent
      then t # sent_times (s\<lparr>last_alert_time := t\<rparr>) calls
      else sent_times s calls)"
proof (cases "send_message s [] t raises")
  case (Pair r s')
  then have "s' = snd (send_message s [] t raises)" "r = fst (send_message s [] t raises)"
    by simp_all
  then have s': "s' = (if r = Message_sent then s\<lparr>last_alert_time := t\<rparr> else s)"
    by (simp only: snd_send_message)
  show ?thesis
    unfolding sent_times.simps Pair prod.case fst_conv s'
    by (cases r) simp_all
qed

lemma sent_times_spaced:
  "0 \<le> alert_cooldown s \<Longrightarrow>
   (\<forall>u \<in> set (sent_times s calls). alert_cooldown s \<le> u - last_alert_time s)
   \<and> sorted_wrt (\<lambda>a b. alert_cooldown s \<le> b - a) (sent_times s calls)"
proof (induction calls arbitrary: s)
  case Nil
  then show ?case by simp
next
  case (Cons call calls)
  obtain t raises where call: "call = (t, raises)" by (cases call)
  show ?case
  proof (cases "fst (send_message s [] t raises) = Message_sent")
    case True
    then have gap: "alert_cooldown s \<le> t - last_alert_time s"
      by (simp only: fst_send_message_sent)
    let ?s' = "s\<lparr>last_alert_time := t\<rparr>"
    have "0 \<le> alert_cooldown ?s'" using Cons.prems by simp
    from Cons.IH [OF this]
    have ih1: "\<forall>u \<in> set (sent_times ?s' calls). alert_cooldown s \<le> u - t"
      and ih2: "sorted_wrt (\<lambda>a b. alert_cooldown s \<le> b - a) (sent_times ?s' calls)"
      by simp_all
    have st: "sent_times s (call # calls) = t # sent_times ?s' calls"
      unfolding call sent_times_Cons using True by simp
    have far: "alert_cooldown s \<le> u - last_alert_time s"
      if "u \<in> set (sent_times ?s' calls)" for u
    proof -
      from ih1 that have "alert_cooldown s \<le> u - t" by blast
      with gap Cons.prems show ?thesis by linarith
    qed
    show ?thesis
      unfolding st using ih1 ih2 gap far by simp
  next
    case False
    have st: "sent_times s (call # calls) = sent_times s calls"
      unfolding call sent_times_Cons using False by simp
    show ?thesis
      unfolding st using Cons.IH [OF Cons.prems] .
  qed
qed

lemma send_all_two:
  "fst (send_all s [(t1, r1), (t2, r2)]) =
     [fst (send_message s [] t1 r1),
      fst (send_message (snd (send_message s [] t1 r1)) [] t2 r2)]"
  by (simp add: split_beta)

text \<open>
  C5, as the code has it. Any two messages that are sent lie at least
  \<open>alert_cooldown\<close> apart, a dispatch inside the cooldown window returns
  \<open>Cooldown_active\<close> and leaves the detector unchanged (nothing is stored for later),
  and when the first of two dispatches is sent and the second comes within the cooldown,
  the channel is called exactly once.
\<close>

theorem alerts_respect_cooldown:
  "(0 \<le> alert_cooldown s \<longrightarrow> i < j \<longrightarrow> j < length (sent_times s calls) \<longrightarrow>
      alert_cooldown s \<le> sent_times s calls ! j - sent_times s calls ! i)
   \<and> (twilio_enabled s \<longrightarrow> t - last_alert_time s < alert_cooldown s \<longrightarrow>
        send_message s body t raises = (Cooldown_active, s))
   \<and> (fst (send_message s [] t1 r1) = Message_sent \<longrightarrow> t2 - t1 < alert_cooldown s \<longrightarrow>
        fst (send_all s [(t1, r1), (t2, r2)]) = [Message_sent, Cooldown_active]
        \<and> attempts (fst (send_all s [(t1, r1), (t2, r2)])) = 1)"
proof (intro conjI impI)
  assume "0 \<le> alert_cooldown s" "i < j" "j < length (sent_times s calls)"
  then show "alert_cooldown s \<le> sent_times s calls ! j - sent_times s calls ! i"
    using sent_times_spaced [of s calls] by (simp add: sorted_wrt_iff_nth_less)
next
  assume "twilio_enabled s" "t - last_alert_time s < alert_cooldown s"
  then show "send_message s body t raises = (Cooldown_active, s)"
    by (rule send_message_cooldown)
next
  assume a: "fst (send_message s [] t1 r1) = Message_sent" "t2 - t1 < alert_cooldown s"
  let ?s' = "s\<lparr>last_alert_time := t1\<rparr>"
  have en: "twilio_enabled s" using a(1) by (simp only: fst_send_message_sent)
  have s': "snd (send_message s [] t1 r1) = ?s'"
    using a(1) by (simp add: snd_send_message)
  have "send_message ?s' [] t2 r2 = (Cooldown_active, ?s')"
    by (rule send_message_cooldown) (use en a(2) in simp_all)
  then show two: "fst (send_all s [(t1, r1), (t2, r2)]) = [Message_sent, Cooldown_active]"
    unfolding send_all_two s' using a(1) by simp
  show "attempts (fst (send_all s [(t1, r1), (t2, r2)])) = 1"
    unfolding two by (simp add: attempts_def)
qed

lemma armed_fields:
  "twilio_enabled armed" "last_alert_time armed = 0" "alert_cooldown armed = 300"
  by (simp_all add: armed_def setup_twilio_def init_def)

text \<open>
  C5 as stated fails when the first dispatch raises: the second one, 100 seconds later,
  calls the channel again.
\<close>

theorem two_exits_two_attempts_counterexample:
  "(1100::real) - 1000 < alert_cooldown armed
   \<and> fst (send_all armed [(1000, True), (1100, False)]) = [Send_failed, Message_sent]
   \<and> attempts (fst (send_all armed [(1000, True), (1100, False)])) = 2"
  by (simp add: send_all_two send_message_def armed_fields attempts_def)

lemma armed_sent:
  "sent_times armed [(1000, False), (1100, False), (1299, True), (1300, False)] = [1000, 1300]"
  by (simp add: sent_times_Cons send_message_def armed_fields del: sent_times.simps(2))

theorem alerts_respect_cooldown_witness:
  "0 \<le> alert_cooldown armed \<and> (0::nat) < 1
   \<and> 1 < length (sent_times armed [(1000, False), (1100, False), (1299, True), (1300, False)])
   \<and> alert_cooldown armed
        \<le> sent_times armed [(1000, False), (1100, False), (1299, True), (1300, False)] ! 1
          - sent_times armed [(1000, False), (1100, False), (1299, True), (1300, False)] ! 0
   \<and> twilio_enabled armed \<and> (100::real) - last_alert_time armed < alert_cooldown armed
   \<and> send_message armed ''left'' 100 False = (Cooldown_active, armed)
   \<and> fst (send_message armed [] 1000 False) = Message_sent
   \<and> (1100::real) - 1000 < alert_cooldown armed
   \<and> attempts (fst (send_all armed [(1000, False), (1100, True)])) = 1"
proof -
  note inst = alerts_respect_cooldown
    [of armed 0 1 "[(1000, False), (1100, False), (1299, True), (1300, False)]"
        100 "''left''" False 1000 False 1100 True]
  have h1: "0 \<le> alert_cooldown armed" by (simp add: armed_fields)
  have h2: "1 < length (sent_times armed [(1000, False), (1100, False), (1299, True), (1300, False)])"
    unfolding armed_sent by simp
  have h3: "twilio_enabled armed" by (simp add: armed_fields)
  have h4: "(100::real) - last_alert_time armed < alert_cooldown armed" by (simp add: armed_fields)
  have h5: "fst (send_message armed [] 1000 False) = Message_sent"
    by (simp add: send_message_def armed_fields)
  have h6: "(1100::real) - 1000 < alert_cooldown armed" by (simp add: armed_fields)
  have h0: "(0::nat) < 1" by simp
  from inst h0 h1 h2 h3 h4 h5 h6 show ?thesis by blast
qed

section \<open>Settings\<close>

text \<open>
  C6, as the code has it. \<open>update_settings\<close> checks nothing: the four values are
  stored as given (the two integer ones truncated). When the truncated detection
  threshold is not negative the call succeeds and the window becomes all false of that
  size; when it is negative, building the window raises after the four assignments and
  the old window stays.
\<close>

theorem update_settings_stores_unchecked:
  "confidence_threshold (snd (update_settings s conf area_thr pat thresh)) = conf
   \<and> area_threshold (snd (update_settings s conf area_thr pat thresh)) = py_int area_thr
   \<and> patience (snd (update_settings s conf area_thr pat thresh)) = pat
   \<and> detection_thresh (snd (update_settings s conf area_thr pat thresh)) = py_int thresh
   \<and> (0 \<le> py_int thresh \<longrightarrow>
        fst (update_settings s conf area_thr pat thresh) = Inr ''Settings updated successfully!''
        \<and> de (snd (update_settings s conf area_thr pat thresh))
            = Deque (replicate (nat (py_int thresh)) False) (nat (py_int thresh)))
   \<and> (py_int thresh < 0 \<longrightarrow>
        fst (update_settings s conf area_thr pat thresh) = Inl ValueError
        \<and> de (snd (update_settings s conf area_thr pat thresh)) = de s)"
  by (simp add: update_settings_def Let_def deque_of_def last_n_def)

theorem update_settings_stores_unchecked_witness:
  "(0::int) \<le> py_int 3 \<and> py_int (-2) < 0
   \<and> de (snd (update_settings (init True) 0.4 900 2 3)) = Deque [False, False, False] 3
   \<and> fst (update_settings (init True) 0.4 900 2 (-2)) = Inl ValueError
   \<and> de (snd (update_settings (init True) 0.4 900 2 (-2))) = de (init True)
   \<and> detection_thresh (snd (update_settings (init True) 0.4 900 2 (-2))) = -2"
  using update_settings_stores_unchecked [of "init True" "0.4" 900 2 3]
    update_settings_stores_unchecked [of "init True" "0.4" 900 2 "-2"]
  by (simp add: py_int_def numeral_3_eq_3)

text \<open>
  C6 as stated fails: four invalid values are accepted and replace the defaults.
\<close>

theorem invalid_settings_accepted_counterexample:
  "\<not> valid_settings 0 (-100) (-1) 0
   \<and> fst (update_settings (init True) 0 (-100) (-1) 0) = Inr ''Settings updated successfully!''
   \<and> confidence_threshold (snd (update_settings (init True) 0 (-100) (-1) 0)) = 0
   \<and> area_threshold (snd (update_settings (init True) 0 (-100) (-1) 0)) = -100
   \<and> patience (snd (update_settings (init True) 0 (-100) (-1) 0)) = -1
   \<and> detection_thresh (snd (update_settings (init True) 0 (-100) (-1) 0)) = 0
   \<and> confidence_threshold (init True) = 0.5 \<and> area_threshold (init True) = 2000
   \<and> patience (init True) = 5 \<and> detection_thresh (init True) = 8"
  by (simp add: update_settings_def Let_def py_int_def valid_settings_def init_def)

section \<open>Steps of the state machine\<close>

lemma track_persons_total:
  "\<exists>ids n. track_persons s dets res = Inr (ids, n)"
  by (cases res) (simp_all add: track_persons_def)

lemma snd_apply_smart_filtering:
  "snd (apply_smart_filtering s c) =
     s\<lparr>person_count_history := append_right (person_count_history s) c\<rparr>"
  by (simp add: apply_smart_filtering_def Let_def split: option.splits)

lemma observe_eq: "observe s env = Inr (presence s env, observed s env)"
proof -
  obtain ids n where tp: "track_persons s (detections env) (tracker_result env) = Inr (ids, n)"
    using track_persons_total by blast
  show ?thesis
    unfolding observe_def presence_def observed_def tp
    by (simp add: split_beta)
qed

lemma observed_eq:
  "\<exists>c. observed s env =
     s\<lparr>person_count_history := append_right (person_count_history s) c,
       de := appendleft (de s) (presence s env)\<rparr>"
proof -
  obtain ids n where tp: "track_persons s (detections env) (tracker_result env) = Inr (ids, n)"
    using track_persons_total by blast
  obtain b s1 where asf: "apply_smart_filtering s (int n) = (b, s1)"
    by (cases "apply_smart_filtering s (int n)")
  have s1: "s1 = s\<lparr>person_count_history := append_right (person_count_history s) (int n)\<rparr>"
    using snd_apply_smart_filtering [of s "int n"] unfolding asf by simp
  have "observe s env = Inr (b, s1\<lparr>de := appendleft (de s1) b\<rparr>)"
    unfolding observe_def tp by (simp add: asf)
  then have "presence s env = b" and "observed s env = s1\<lparr>de := appendleft (de s1) b\<rparr>"
    unfolding presence_def observed_def by simp_all
  then have "observed s env =
     s\<lparr>person_count_history := append_right (person_count_history s) (int n),
       de := appendleft (de s) (presence s env)\<rparr>"
    unfolding s1 by simp
  then show ?thesis ..
qed

lemma observed_fields:
  "status (observed s env) = status s"
  "initial_time (observed s env) = initial_time s"
  "entry_time (observed s env) = entry_time s"
  "out (observed s env) = out s"
  "detection_thresh (observed s env) = detection_thresh s"
  "patience (observed s env) = patience s"
  "de (observed s env) = window s env"
proof -
  obtain c where c: "observed s env =
     s\<lparr>person_count_history := append_right (person_count_history s) c,
       de := appendleft (de s) (presence s env)\<rparr>"
    using observed_eq by blast
  show "status (observed s env) = status s" unfolding c by simp
  show "initial_time (observed s env) = initial_time s" unfolding c by simp
  show "entry_time (observed s env) = entry_time s" unfolding c by simp
  show "out (observed s env) = out s" unfolding c by simp
  show "detection_thresh (observed s env) = detection_thresh s" unfolding c by simp
  show "patience (observed s env) = patience s" unfolding c by simp
  show "de (observed s env) = window s env"
    unfolding window_def observed_def by (simp split: sum.splits prod.splits)
qed

lemma enter_step_fields:
  "status (enter_step s env) = (status s \<or> fires s)"
  "entry_time (enter_step s env) = (if fires s then Some (stamp env) else entry_time s)"
  "out (enter_step s env) =
     (if fires s \<and> \<not> writer_raises env
      then Some \<lparr>path = output_dir @ ''/'' @ stamp env @ ''.mp4'', opened = True,
                  frames_written = 0\<rparr>
      else out s)"
  "initial_time (enter_step s env) = initial_time s"
  "de (enter_step s env) = de s"
  "detection_thresh (enter_step s env) = detection_thresh s"
  "patience (enter_step s env) = patience s"
  by (auto simp: enter_step_def fires_def Let_def)

lemma enter_step_changes: "enter_step s env \<noteq> s \<longleftrightarrow> fires s"
proof
  assume "enter_step s env \<noteq> s"
  then show "fires s" by (auto simp: enter_step_def fires_def split: if_splits)
next
  assume f: "fires s"
  then have "status (enter_step s env)" and "\<not> status s"
    by (simp_all add: enter_step_fields fires_def)
  then show "enter_step s env \<noteq> s" by auto
qed

lemma snd_send_message_fields:
  "status (snd (send_message s body t r)) = status s"
  "entry_time (snd (send_message s body t r)) = entry_time s"
  "out (snd (send_message s body t r)) = out s"
  "initial_time (snd (send_message s body t r)) = initial_time s"
  by (simp_all add: send_message_def)

lemma leave_step_fields:
  "status (leave_step s env pd) = (status s \<and> \<not> exits s env pd)"
  "entry_time (leave_step s env pd) = entry_time s"
  "out (leave_step s env pd) = (if exits s env pd then release (out s) else out s)"
  by (simp_all add: leave_step_def exits_def Let_def snd_send_message_fields split: option.splits)

lemma leave_step_exit:
  "exits s env pd \<Longrightarrow>
   leave_step s env pd =
     snd (send_message (s\<lparr>status := False, out := release (out s), initial_time := None\<rparr>)
            (alert_body (s\<lparr>status := False, out := release (out s), initial_time := None\<rparr>)
               env)
            (alert_now env) (channel_fails env))"
  by (simp add: leave_step_def exits_def Let_def split: option.splits)

lemma leave_step_initial_time:
  "initial_time (leave_step s env pd) =
     (if \<not> status s then initial_time s
      else if real (sum_bools (de s)) > real_of_int (detection_thresh s) * 0.3 then
        (if pd then None
         else (case initial_time s of None \<Rightarrow> Some (now env) | Some t0 \<Rightarrow> Some t0))
      else if exits s env pd then None else initial_time s)"
  by (simp add: leave_step_def exits_def Let_def snd_send_message_fields split: option.splits)

lemma write_frame_fields:
  "status (write_frame s) = status s"
  "entry_time (write_frame s) = entry_time s"
  "initial_time (write_frame s) = initial_time s"
  "map_option path (out (write_frame s)) = map_option path (out s)"
  "map_option opened (out (write_frame s)) = map_option opened (out s)"
  by (simp_all add: write_frame_def split: option.splits)

lemma process_frame_idle:
  "\<not> reaches_state_machine s env \<Longrightarrow> snd (process_frame s env) = s"
  by (simp add: process_frame_def reaches_state_machine_def)

lemma process_frame_core:
  "reaches_state_machine s env \<Longrightarrow>
   snd (process_frame s env) =
     (if render_raises env then after_transitions s env
      else if presence s env
      then (write_frame (after_transitions s env))
             \<lparr>detection_count := Suc (detection_count (write_frame (after_transitions s env)))\<rparr>
      else write_frame (after_transitions s env))"
  by (simp add: process_frame_def reaches_state_machine_def observe_eq after_transitions_def
      Let_def)

lemma process_frame_fields:
  assumes "reaches_state_machine s env"
  shows "status (snd (process_frame s env)) = status (after_transitions s env)"
    and "entry_time (snd (process_frame s env)) = entry_time (after_transitions s env)"
    and "initial_time (snd (process_frame s env)) = initial_time (after_transitions s env)"
    and "map_option path (out (snd (process_frame s env)))
           = map_option path (out (after_transitions s env))"
    and "map_option opened (out (snd (process_frame s env)))
           = map_option opened (out (after_transitions s env))"
  by (simp_all add: process_frame_core [OF assms] write_frame_fields)

lemma recording_active_opened:
  "recording_active s \<longleftrightarrow> map_option opened (out s) = Some True"
  by (cases "out s") (simp_all add: recording_active_def)

section \<open>Entry, exit timer and recording\<close>

lemma fires_observed: "fires (observed s env) \<longleftrightarrow> entry_level s env \<and> \<not> status s"
  by (simp add: fires_def entry_level_def observed_fields)

lemma levels_exclusive:
  assumes "real n \<ge> real_of_int k * 0.6" and "\<not> real n > real_of_int k * 0.3"
  shows "k = 0"
proof -
  have "0 \<le> real n" by simp
  with assms have "real_of_int k = 0" by linarith
  then show ?thesis by simp
qed

lemma exits_entered:
  "exits (enter_step (observed s env) env) env pd \<longleftrightarrow>
     (status s \<or> entry_level s env) \<and> \<not> pd \<and> \<not> above_borderline s env
     \<and> (case initial_time s of None \<Rightarrow> False | Some t0 \<Rightarrow> now env - t0 \<ge> patience s)"
  by (auto simp: exits_def enter_step_fields observed_fields fires_observed above_borderline_def
      split: option.splits)

lemma no_exit_on_entry:
  assumes "entry_level s env" and "detection_thresh s \<noteq> 0"
  shows "\<not> exits (enter_step (observed s env) env) env pd"
proof
  assume "exits (enter_step (observed s env) env) env pd"
  then have "\<not> above_borderline s env" by (simp add: exits_entered)
  with assms(1) have "detection_thresh s = 0"
    unfolding entry_level_def above_borderline_def by (rule levels_exclusive)
  with assms(2) show False by simp
qed

lemma after_transitions_fields:
  "status (after_transitions s env) =
     ((status s \<or> entry_level s env)
      \<and> \<not> exits (enter_step (observed s env) env) env (presence s env))"
  "entry_time (after_transitions s env) =
     (if entry_level s env \<and> \<not> status s then Some (stamp env) else entry_time s)"
  "out (after_transitions s env) =
     (let w = (if entry_level s env \<and> \<not> status s \<and> \<not> writer_raises env
               then Some \<lparr>path = output_dir @ ''/'' @ stamp env @ ''.mp4'', opened = True,
                           frames_written = 0\<rparr>
               else out s)
      in if exits (enter_step (observed s env) env) env (presence s env) then release w else w)"
  by (auto simp: after_transitions_def leave_step_fields enter_step_fields observed_fields
      fires_observed Let_def)

lemma after_transitions_initial_time:
  "status s \<Longrightarrow> above_borderline s env \<Longrightarrow>
   initial_time (after_transitions s env) =
     (if presence s env then None
      else (case initial_time s of None \<Rightarrow> Some (now env) | Some t0 \<Rightarrow> Some t0))"
  by (simp add: after_transitions_def leave_step_initial_time enter_step_fields observed_fields
      above_borderline_def)

lemma sum_bools_all_true:
  "\<forall>b\<in>set (items d). b \<Longrightarrow> sum_bools d = length (items d)"
  by (simp add: sum_bools_def)

lemma all_true_entry_level:
  assumes "\<forall>b\<in>set (items (window s env)). b"
    and "detection_thresh s \<le> int (length (items (window s env)))"
  shows "entry_level s env"
proof -
  have "real_of_int (detection_thresh s) \<le> real (length (items (window s env)))"
    using assms(2) by (metis of_int_le_iff of_int_of_nat_eq)
  moreover have "0 \<le> real (length (items (window s env)))" by simp
  ultimately have "real_of_int (detection_thresh s) * 0.6 \<le> real (length (items (window s env)))"
    by linarith
  then show ?thesis
    by (simp add: entry_level_def sum_bools_all_true [OF assms(1)])
qed

lemma map_option_opened_release: "map_option opened (release w) \<noteq> Some True"
  by (cases w) (simp_all add: release_def)

lemma map_option_path_release: "map_option path (release w) = map_option path w"
  by (cases w) (simp_all add: release_def)

text \<open>
  C1, as the code has it. In state OCCUPIED with the exit timer running, a frame whose
  window lies above the borderline (\<open>sum > 0.3 * detection_thresh\<close>) clears the
  timer when the smoothed presence of the frame is true (line 341); when it is false,
  the branch of lines 327 to 330 runs and the timer keeps its start.
\<close>

theorem pending_exit_cleared_only_with_presence:
  "reaches_state_machine s env \<longrightarrow> status s \<longrightarrow> initial_time s = Some t0 \<longrightarrow>
   above_borderline s env \<longrightarrow>
   initial_time (snd (process_frame s env)) = (if presence s env then None else Some t0)"
  by (simp add: process_frame_fields after_transitions_initial_time)

text \<open>
  C2. For a call that reaches the state machine: lines 310 to 326 change the detector
  exactly when it is EMPTY and the window is at the entry level. With a detection
  threshold other than 0: from EMPTY with the window at the entry level the detector
  becomes OCCUPIED, the entry timestamp is recorded, and the recording is open unless
  opening the writer raises. From EMPTY below the entry level the detector stays EMPTY, with the entry
  timestamp and the writer's file as they were; from OCCUPIED no entry happens either.
  A window that is all true and at least \<open>detection_thresh\<close> long enters from EMPTY.
\<close>

theorem entry_transition:
  "reaches_state_machine s env \<longrightarrow>
   (enter_step (observed s env) env \<noteq> observed s env
      \<longleftrightarrow> \<not> status s \<and> entry_level s env)
   \<and> (\<not> status s \<and> entry_level s env \<and> detection_thresh s \<noteq> 0 \<longrightarrow>
      status (snd (process_frame s env))
      \<and> entry_time (snd (process_frame s env)) = Some (stamp env)
      \<and> (\<not> writer_raises env \<longrightarrow>
           recording_active (snd (process_frame s env))
           \<and> map_option path (out (snd (process_frame s env)))
               = Some (output_dir @ ''/'' @ stamp env @ ''.mp4'')))
   \<and> (\<not> status s \<and> \<not> entry_level s env \<longrightarrow>
        \<not> status (snd (process_frame s env))
        \<and> entry_time (snd (process_frame s env)) = entry_time s
        \<and> map_option path (out (snd (process_frame s env))) = map_option path (out s))
   \<and> (status s \<longrightarrow>
        entry_time (snd (process_frame s env)) = entry_time s
        \<and> map_option path (out (snd (process_frame s env))) = map_option path (out s))
   \<and> (\<not> status s \<and> detection_thresh s \<noteq> 0 \<and> (\<forall>b\<in>set (items (window s env)). b)
        \<and> detection_thresh s \<le> int (length (items (window s env))) \<longrightarrow>
        status (snd (process_frame s env)))"
proof (intro impI conjI)
  show "enter_step (observed s env) env \<noteq> observed s env
      \<longleftrightarrow> \<not> status s \<and> entry_level s env"
    by (simp add: enter_step_changes fires_observed conj_commute)
next
  assume r: "reaches_state_machine s env"
  note pf = process_frame_fields [OF r]
  {
    assume a: "\<not> status s \<and> entry_level s env \<and> detection_thresh s \<noteq> 0"
    then have ne: "\<not> exits (enter_step (observed s env) env) env (presence s env)"
      by (simp add: no_exit_on_entry)
    show "status (snd (process_frame s env))"
      using a ne by (simp add: pf after_transitions_fields)
    show "entry_time (snd (process_frame s env)) = Some (stamp env)"
      using a by (simp add: pf after_transitions_fields)
    {
      assume w: "\<not> writer_raises env"
      show "recording_active (snd (process_frame s env))"
        using a ne w by (simp add: recording_active_opened pf after_transitions_fields)
      show "map_option path (out (snd (process_frame s env)))
               = Some (output_dir @ ''/'' @ stamp env @ ''.mp4'')"
        using a ne w by (simp add: pf after_transitions_fields)
    }
  }
  {
    assume a: "\<not> status s \<and> \<not> entry_level s env"
    show "\<not> status (snd (process_frame s env))"
      using a by (simp add: pf after_transitions_fields)
    show "entry_time (snd (process_frame s env)) = entry_time s"
      using a by (simp add: pf after_transitions_fields)
    show "map_option path (out (snd (process_frame s env))) = map_option path (out s)"
      using a by (simp add: pf after_transitions_fields Let_def map_option_path_release)
  }
  {
    assume a: "status s"
    show "entry_time (snd (process_frame s env)) = entry_time s"
      using a by (simp add: pf after_transitions_fields)
    show "map_option path (out (snd (process_frame s env))) = map_option path (out s)"
      using a by (simp add: pf after_transitions_fields Let_def map_option_path_release)
  }
  {
    assume a: "\<not> status s \<and> detection_thresh s \<noteq> 0 \<and> (\<forall>b\<in>set (items (window s env)). b)
        \<and> detection_thresh s \<le> int (length (items (window s env)))"
    then have el: "entry_level s env" by (intro all_true_entry_level) blast+
    with a have ne: "\<not> exits (enter_step (observed s env) env) env (presence s env)"
      by (simp add: no_exit_on_entry)
    show "status (snd (process_frame s env))"
      using el ne by (simp add: pf after_transitions_fields)
  }
qed

lemma write_frame_idle: "\<not> recording_active s \<Longrightarrow> write_frame s = s"
  by (simp add: write_frame_def recording_active_def split: option.splits)

lemma process_frame_out:
  "reaches_state_machine s env \<Longrightarrow>
   out (snd (process_frame s env)) =
     (if render_raises env then out (after_transitions s env)
      else out (write_frame (after_transitions s env)))"
  by (simp add: process_frame_core)

lemma release_not_opened: "release w = Some z \<Longrightarrow> \<not> opened z"
  by (cases w) (auto simp: release_def)

lemma recording_active_after:
  "recording_active (after_transitions s env) \<longleftrightarrow>
     \<not> exits (enter_step (observed s env) env) env (presence s env)
     \<and> (entry_level s env \<and> \<not> status s \<and> \<not> writer_raises env \<or> recording_active s)"
proof (cases "exits (enter_step (observed s env) env) env (presence s env)")
  case True
  then show ?thesis
    by (auto simp: recording_active_def after_transitions_fields Let_def
        split: option.splits dest: release_not_opened)
next
  case False
  then show ?thesis
    by (auto simp: recording_active_def after_transitions_fields Let_def)
qed

lemma process_frame_recording:
  "reaches_state_machine s env \<Longrightarrow>
   recording_active (snd (process_frame s env)) = recording_active (after_transitions s env)"
  by (simp add: recording_active_opened process_frame_fields)

lemma writer_inv_frame:
  assumes "writer_inv s"
  shows "writer_inv (snd (process_frame s env))"
proof (cases "reaches_state_machine s env")
  case False
  then show ?thesis using assms by (simp add: process_frame_idle)
next
  case True
  note pf = process_frame_fields [OF True]
  show ?thesis
    unfolding writer_inv_def
  proof (intro impI conjI)
    assume "recording_active (snd (process_frame s env))"
    then have ra: "recording_active (after_transitions s env)"
      by (simp add: process_frame_recording [OF True])
    then have ne: "\<not> exits (enter_step (observed s env) env) env (presence s env)"
      and src: "entry_level s env \<and> \<not> status s \<or> recording_active s"
      by (auto simp: recording_active_after)
    from src assms have st: "entry_level s env \<or> status s"
      by (auto simp: writer_inv_def)
    show "status (snd (process_frame s env))"
      using st ne by (auto simp: pf after_transitions_fields)
    show "entry_time (snd (process_frame s env)) \<noteq> None"
      using src assms by (auto simp: pf after_transitions_fields writer_inv_def)
  qed
qed

lemma recording_active_release: "\<not> recording_active (s\<lparr>out := release (out s)\<rparr>)"
  by (cases "out s") (simp_all add: recording_active_def release_def)

lemma writer_inv_reachable: "reachable s \<Longrightarrow> writer_inv s"
proof (induction rule: reachable.induct)
  case (r_init tracker_ok)
  show ?case by (simp add: writer_inv_def recording_active_def init_def)
next
  case (r_start s outcome)
  then show ?case
    by (simp add: writer_inv_def recording_active_def start_detection_def)
next
  case (r_stop s)
  have "\<not> recording_active (stop_camera s)"
    by (cases "out s") (simp_all add: recording_active_def stop_camera_def release_def)
  then show ?case by (simp add: writer_inv_def)
next
  case (r_frame s env)
  then show ?case by (simp add: writer_inv_frame)
next
  case (r_settings s conf area_thr pat thresh)
  then show ?case
    by (simp add: writer_inv_def recording_active_def update_settings_def Let_def)
next
  case (r_twilio s sid token your twilio)
  then show ?case
    by (simp add: writer_inv_def recording_active_def setup_twilio_def)
next
  case (r_test_sms s body t raises)
  then show ?case
    by (simp add: writer_inv_def recording_active_def snd_send_message_fields)
qed

lemma entry_time_kept:
  "entry_time s \<noteq> None \<Longrightarrow> entry_time (snd (process_frame s env)) \<noteq> None"
proof (cases "reaches_state_machine s env")
  case False
  assume "entry_time s \<noteq> None"
  with False show ?thesis by (simp add: process_frame_idle)
next
  case True
  assume "entry_time s \<noteq> None"
  then show ?thesis
    by (simp add: process_frame_fields [OF True] after_transitions_fields)
qed

lemma reachable_run_frames: "reachable s \<Longrightarrow> reachable (run_frames s envs)"
  by (induction envs arbitrary: s) (simp_all add: r_frame)

text \<open>
  C4, as the code has it. In every reachable detector an active recording implies an
  entry timestamp (and state OCCUPIED). The converse fails, since nothing clears
  \<open>entry_time\<close>: once set it stays set under \<open>process_frame\<close>, the exit
  transition included, and under \<open>stop_camera\<close>.
\<close>

theorem recording_implies_entry_time:
  "reachable s \<longrightarrow>
     (recording_active s \<longrightarrow> entry_time s \<noteq> None \<and> status s)
     \<and> (entry_time s \<noteq> None \<longrightarrow>
          entry_time (snd (process_frame s env)) \<noteq> None
          \<and> entry_time (stop_camera s) \<noteq> None)"
proof (intro impI conjI)
  assume "reachable s"
  then have "writer_inv s" by (rule writer_inv_reachable)
  then show "entry_time s \<noteq> None" and "status s" if "recording_active s"
    using that by (simp_all add: writer_inv_def)
next
  assume "entry_time s \<noteq> None"
  then show "entry_time (snd (process_frame s env)) \<noteq> None" by (rule entry_time_kept)
next
  assume "entry_time s \<noteq> None"
  then show "entry_time (stop_camera s) \<noteq> None" by (simp add: stop_camera_def)
qed

lemma occupied_frame_with_presence:
  assumes "reaches_state_machine s env" and "status s" and "presence s env"
  shows "status (snd (process_frame s env))"
    and "entry_time (snd (process_frame s env)) = entry_time s"
    and "\<not> recording_active s \<Longrightarrow> out (snd (process_frame s env)) = out s"
proof -
  note pf = process_frame_fields [OF assms(1)]
  have ne: "\<not> exits (enter_step (observed s env) env) env (presence s env)"
    using assms(3) by (simp add: exits_entered)
  show "status (snd (process_frame s env))"
    using assms(2) ne by (simp add: pf after_transitions_fields)
  show "entry_time (snd (process_frame s env)) = entry_time s"
    using assms(2) by (simp add: pf after_transitions_fields)
  assume nr: "\<not> recording_active s"
  have o: "out (after_transitions s env) = out s"
    using assms(2) ne by (simp add: after_transitions_fields)
  then have "\<not> recording_active (after_transitions s env)"
    using nr by (simp add: recording_active_def)
  then show "out (snd (process_frame s env)) = out s"
    by (simp add: process_frame_out [OF assms(1)] write_frame_idle o)
qed

text \<open>
  C10. In a reachable detector in state EMPTY with a detection threshold other than 0,
  a frame at the entry level whose video writer raises still ends OCCUPIED with the
  entry timestamp recorded; \<open>self.out\<close> is what it was, so no recording is active.
  A following frame with smoothed presence leaves the detector OCCUPIED, with the same
  entry timestamp and still no recording.
\<close>

theorem entry_survives_writer_failure:
  "reachable s \<longrightarrow> reaches_state_machine s env \<longrightarrow> \<not> status s \<longrightarrow> entry_level s env \<longrightarrow>
   detection_thresh s \<noteq> 0 \<longrightarrow> writer_raises env \<longrightarrow>
     status (snd (process_frame s env))
     \<and> entry_time (snd (process_frame s env)) = Some (stamp env)
     \<and> out (snd (process_frame s env)) = out s
     \<and> \<not> recording_active (snd (process_frame s env))
     \<and> (reaches_state_machine (snd (process_frame s env)) env2 \<longrightarrow>
          presence (snd (process_frame s env)) env2 \<longrightarrow>
            status (snd (process_frame (snd (process_frame s env)) env2))
            \<and> entry_time (snd (process_frame (snd (process_frame s env)) env2))
                = Some (stamp env)
            \<and> \<not> recording_active (snd (process_frame (snd (process_frame s env)) env2)))"
proof (intro impI)
  assume rs: "reachable s" and r: "reaches_state_machine s env" and st: "\<not> status s"
    and el: "entry_level s env" and nz: "detection_thresh s \<noteq> 0" and wr: "writer_raises env"
  let ?s' = "snd (process_frame s env)"
  note pf = process_frame_fields [OF r]
  have nr: "\<not> recording_active s"
    using writer_inv_reachable [OF rs] st by (auto simp: writer_inv_def)
  have ne: "\<not> exits (enter_step (observed s env) env) env (presence s env)"
    using el nz by (rule no_exit_on_entry)
  have s1: "status ?s'" using el ne by (simp add: pf after_transitions_fields)
  have s2: "entry_time ?s' = Some (stamp env)" using el st by (simp add: pf after_transitions_fields)
  have o: "out (after_transitions s env) = out s"
    using wr ne by (simp add: after_transitions_fields)
  then have "\<not> recording_active (after_transitions s env)"
    using nr by (simp add: recording_active_def)
  then have s3: "out ?s' = out s"
    by (simp add: process_frame_out [OF r] write_frame_idle o)
  then have s4: "\<not> recording_active ?s'" using nr by (simp add: recording_active_def)
  have s5: "status (snd (process_frame ?s' env2))
            \<and> entry_time (snd (process_frame ?s' env2)) = Some (stamp env)
            \<and> \<not> recording_active (snd (process_frame ?s' env2))"
    if a: "reaches_state_machine ?s' env2" and b: "presence ?s' env2"
  proof -
    have "out (snd (process_frame ?s' env2)) = out ?s'"
      using occupied_frame_with_presence(3) [OF a s1 b] s4 by simp
    then have "\<not> recording_active (snd (process_frame ?s' env2))"
      using s4 by (simp add: recording_active_def)
    then show ?thesis
      using occupied_frame_with_presence(1,2) [OF a s1 b] s2 by simp
  qed
  from s1 s2 s3 s4 s5 show "status ?s'
     \<and> entry_time ?s' = Some (stamp env)
     \<and> out ?s' = out s
     \<and> \<not> recording_active ?s'
     \<and> (reaches_state_machine ?s' env2 \<longrightarrow>
          presence ?s' env2 \<longrightarrow>
            status (snd (process_frame ?s' env2))
            \<and> entry_time (snd (process_frame ?s' env2)) = Some (stamp env)
            \<and> \<not> recording_active (snd (process_frame ?s' env2)))"
    by blast
qed

section \<open>The visit evaluated\<close>

lemma replicate_numeral: "replicate (numeral k) x = x # replicate (pred_numeral k) x"
  by (simp add: numeral_eq_Suc)

lemmas frame_defs = process_frame_def observe_def track_persons_def apply_smart_filtering_def
  append_right_def appendleft_def last_n_def np_median_def enter_step_def leave_step_def
  write_frame_def sum_bools_def frame_at_def release_def send_message_def alert_body_def
  output_dir_def Let_def replicate_numeral

lemma started_eq:
  "started = \<lparr>cap_opened = True, out = None, running = True,
       confidence_threshold = 0.5, detection_thresh = 8, patience = 5,
       area_threshold = 2000, status = False, initial_time = None,
       de = Deque [False, False, False, False, False, False, False, False] 8,
       person_count_history = Deque [] 30,
       detection_count = 0, entry_time = None, tracker = True,
       twilio_enabled = False, account_sid = [], auth_token = [],
       your_num = [], twilio_num = [],
       last_alert_time = 0, alert_cooldown = 300\<rparr>"
  by (simp add: started_def start_detection_def init_def deque_of_def last_n_def replicate_numeral)

lemma run4:
  "run_frames started (take 4 visit) =
     \<lparr>cap_opened = True, out = None, running = True,
       confidence_threshold = 0.5, detection_thresh = 8, patience = 5,
       area_threshold = 2000, status = False, initial_time = None,
       de = Deque [True, True, True, True, False, False, False, False] 8,
       person_count_history = Deque [1, 1, 1, 1] 30,
       detection_count = 4, entry_time = None, tracker = True,
       twilio_enabled = False, account_sid = [], auth_token = [],
       your_num = [], twilio_num = [],
       last_alert_time = 0, alert_cooldown = 300\<rparr>"
  by (simp add: visit_def started_eq frame_defs)

lemma run5:
  "run_frames started (take 5 visit) =
     \<lparr>cap_opened = True,
       out = Some \<lparr>path = ''surveillance_outputs/entry.mp4'', opened = True,
                    frames_written = 1\<rparr>,
       running = True,
       confidence_threshold = 0.5, detection_thresh = 8, patience = 5,
       area_threshold = 2000, status = True, initial_time = None,
       de = Deque [True, True, True, True, True, False, False, False] 8,
       person_count_history = Deque [1, 1, 1, 1, 1] 30,
       detection_count = 5, entry_time = Some ''entry'', tracker = True,
       twilio_enabled = False, account_sid = [], auth_token = [],
       your_num = [], twilio_num = [],
       last_alert_time = 0, alert_cooldown = 300\<rparr>"
  by (simp add: visit_def started_eq frame_defs)

lemma run8:
  "run_frames started (take 8 visit) =
     \<lparr>cap_opened = True,
       out = Some \<lparr>path = ''surveillance_outputs/entry.mp4'', opened = True,
                    frames_written = 4\<rparr>,
       running = True,
       confidence_threshold = 0.5, detection_thresh = 8, patience = 5,
       area_threshold = 2000, status = True, initial_time = Some 8,
       de = Deque [False, True, True, True, True, True, True, True] 8,
       person_count_history = Deque [1, 1, 1, 1, 1, 0, 0, 0] 30,
       detection_count = 7, entry_time = Some ''entry'', tracker = True,
       twilio_enabled = False, account_sid = [], auth_token = [],
       your_num = [], twilio_num = [],
       last_alert_time = 0, alert_cooldown = 300\<rparr>"
  by (simp add: visit_def started_eq frame_defs)

lemma run13:
  "run_frames started visit =
     \<lparr>cap_opened = True,
       out = Some \<lparr>path = ''surveillance_outputs/entry.mp4'', opened = False,
                    frames_written = 8\<rparr>,
       running = True,
       confidence_threshold = 0.5, detection_thresh = 8, patience = 5,
       area_threshold = 2000, status = False, initial_time = None,
       de = Deque [False, False, False, False, False, False, True, True] 8,
       person_count_history = Deque [1, 1, 1, 1, 1, 0, 0, 0, 0, 0, 0, 0, 0] 30,
       detection_count = 7, entry_time = Some ''entry'', tracker = True,
       twilio_enabled = False, account_sid = [], auth_token = [],
       your_num = [], twilio_num = [],
       last_alert_time = 0, alert_cooldown = 300\<rparr>"
  by (simp add: visit_def started_eq frame_defs)

lemmas obs_defs = reaches_state_machine_def above_borderline_def entry_level_def window_def
  presence_def

lemma reachable_started: "reachable started"
  unfolding started_def by (intro r_start r_init)

lemma run9:
  "snd (process_frame (run_frames started (take 8 visit)) (frame_at 9 0)) =
     \<lparr>cap_opened = True,
       out = Some \<lparr>path = ''surveillance_outputs/entry.mp4'', opened = True,
                    frames_written = 5\<rparr>,
       running = True,
       confidence_threshold = 0.5, detection_thresh = 8, patience = 5,
       area_threshold = 2000, status = True, initial_time = Some 8,
       de = Deque [False, False, True, True, True, True, True, True] 8,
       person_count_history = Deque [1, 1, 1, 1, 1, 0, 0, 0, 0] 30,
       detection_count = 7, entry_time = Some ''entry'', tracker = True,
       twilio_enabled = False, account_sid = [], auth_token = [],
       your_num = [], twilio_num = [],
       last_alert_time = 0, alert_cooldown = 300\<rparr>"
  unfolding run8 by (simp add: frame_defs)

text \<open>
  C1 as stated fails on the ninth frame of the visit: the window still holds six of
  eight, the smoothed presence is false, and the timer started at second 8 stays.
\<close>

theorem pending_exit_kept_counterexample:
  "reachable (run_frames started (take 8 visit))
   \<and> status (run_frames started (take 8 visit))
   \<and> initial_time (run_frames started (take 8 visit)) = Some 8
   \<and> reaches_state_machine (run_frames started (take 8 visit)) (frame_at 9 0)
   \<and> above_borderline (run_frames started (take 8 visit)) (frame_at 9 0)
   \<and> initial_time (snd (process_frame (run_frames started (take 8 visit)) (frame_at 9 0)))
        = Some 8"
proof -
  have "reachable (run_frames started (take 8 visit))"
    by (intro reachable_run_frames reachable_started)
  moreover have "status (run_frames started (take 8 visit))"
    and "initial_time (run_frames started (take 8 visit)) = Some 8"
    unfolding run8 by simp_all
  moreover have "reaches_state_machine (run_frames started (take 8 visit)) (frame_at 9 0)"
    unfolding run8 by (simp add: obs_defs frame_defs)
  moreover have "above_borderline (run_frames started (take 8 visit)) (frame_at 9 0)"
    unfolding run8 by (simp add: obs_defs frame_defs)
  moreover have "initial_time
      (snd (process_frame (run_frames started (take 8 visit)) (frame_at 9 0))) = Some 8"
    unfolding run9 by simp
  ultimately show ?thesis by blast
qed

text \<open>Two frames with a person after the timer has started; the third one is smoothed to present.\<close>

lemma run10_back:
  "run_frames started (take 8 visit @ [frame_at 9 1, frame_at 10 1]) =
     \<lparr>cap_opened = True,
       out = Some \<lparr>path = ''surveillance_outputs/entry.mp4'', opened = True,
                    frames_written = 6\<rparr>,
       running = True,
       confidence_threshold = 0.5, detection_thresh = 8, patience = 5,
       area_threshold = 2000, status = True, initial_time = Some 8,
       de = Deque [False, False, False, True, True, True, True, True] 8,
       person_count_history = Deque [1, 1, 1, 1, 1, 0, 0, 0, 1, 1] 30,
       detection_count = 7, entry_time = Some ''entry'', tracker = True,
       twilio_enabled = False, account_sid = [], auth_token = [],
       your_num = [], twilio_num = [],
       last_alert_time = 0, alert_cooldown = 300\<rparr>"
  by (simp add: visit_def started_eq frame_defs)

theorem pending_exit_cleared_only_with_presence_witness:
  "reaches_state_machine (run_frames started (take 8 visit @ [frame_at 9 1, frame_at 10 1]))
     (frame_at 11 1)
   \<and> status (run_frames started (take 8 visit @ [frame_at 9 1, frame_at 10 1]))
   \<and> initial_time (run_frames started (take 8 visit @ [frame_at 9 1, frame_at 10 1])) = Some 8
   \<and> above_borderline (run_frames started (take 8 visit @ [frame_at 9 1, frame_at 10 1]))
        (frame_at 11 1)
   \<and> presence (run_frames started (take 8 visit @ [frame_at 9 1, frame_at 10 1])) (frame_at 11 1)
   \<and> initial_time (snd (process_frame
        (run_frames started (take 8 visit @ [frame_at 9 1, frame_at 10 1])) (frame_at 11 1)))
       = None"
proof -
  let ?s = "run_frames started (take 8 visit @ [frame_at 9 1, frame_at 10 1])"
  note inst = pending_exit_cleared_only_with_presence [of ?s "frame_at 11 1" 8]
  have h1: "reaches_state_machine ?s (frame_at 11 1)"
    unfolding run10_back by (simp add: obs_defs frame_defs)
  have h2: "status ?s" unfolding run10_back by simp
  have h3: "initial_time ?s = Some 8" unfolding run10_back by simp
  have h4: "above_borderline ?s (frame_at 11 1)"
    unfolding run10_back by (simp add: obs_defs frame_defs)
  have h5: "presence ?s (frame_at 11 1)"
    unfolding run10_back by (simp add: obs_defs frame_defs)
  from inst h1 h2 h3 h4 have "initial_time (snd (process_frame ?s (frame_at 11 1)))
      = (if presence ?s (frame_at 11 1) then None else Some 8)"
    by blast
  with h5 have "initial_time (snd (process_frame ?s (frame_at 11 1))) = None" by simp
  with h1 h2 h3 h4 h5 show ?thesis by blast
qed

text \<open>
  C4 as stated fails after the visit: the exit transition has released the writer and
  the entry timestamp is still there.
\<close>

theorem entry_time_outlives_recording_counterexample:
  "reachable (run_frames started visit)
   \<and> \<not> status (run_frames started visit)
   \<and> entry_time (run_frames started visit) = Some ''entry''
   \<and> \<not> recording_active (run_frames started visit)"
proof -
  have "reachable (run_frames started visit)"
    by (intro reachable_run_frames reachable_started)
  moreover have "\<not> status (run_frames started visit)"
    and "entry_time (run_frames started visit) = Some ''entry''"
    and "\<not> recording_active (run_frames started visit)"
    unfolding run13 by (simp_all add: recording_active_def)
  ultimately show ?thesis by blast
qed

theorem recording_implies_entry_time_witness:
  "reachable (run_frames started (take 5 visit))
   \<and> recording_active (run_frames started (take 5 visit))
   \<and> entry_time (run_frames started (take 5 visit)) \<noteq> None
   \<and> entry_time (snd (process_frame (run_frames started (take 5 visit)) (frame_at 6 0))) \<noteq> None
   \<and> entry_time (stop_camera (run_frames started (take 5 visit))) \<noteq> None"
proof -
  let ?s = "run_frames started (take 5 visit)"
  note inst = recording_implies_entry_time [of ?s "frame_at 6 0"]
  have h1: "reachable ?s" by (intro reachable_run_frames reachable_started)
  have h2: "recording_active ?s" unfolding run5 by (simp add: recording_active_def)
  from inst h1 h2 show ?thesis by blast
qed

lemma run5_no_writer:
  "snd (process_frame (run_frames started (take 4 visit)) (no_writer (frame_at 5 1))) =
     \<lparr>cap_opened = True, out = None, running = True,
       confidence_threshold = 0.5, detection_thresh = 8, patience = 5,
       area_threshold = 2000, status = True, initial_time = None,
       de = Deque [True, True, True, True, True, False, False, False] 8,
       person_count_history = Deque [1, 1, 1, 1, 1] 30,
       detection_count = 5, entry_time = Some ''entry'', tracker = True,
       twilio_enabled = False, account_sid = [], auth_token = [],
       your_num = [], twilio_num = [],
       last_alert_time = 0, alert_cooldown = 300\<rparr>"
  unfolding run4 by (simp add: frame_defs no_writer_def)

theorem entry_survives_writer_failure_witness:
  "reachable (run_frames started (take 4 visit))
   \<and> reaches_state_machine (run_frames started (take 4 visit)) (no_writer (frame_at 5 1))
   \<and> \<not> status (run_frames started (take 4 visit))
   \<and> entry_level (run_frames started (take 4 visit)) (no_writer (frame_at 5 1))
   \<and> detection_thresh (run_frames started (take 4 visit)) \<noteq> 0
   \<and> writer_raises (no_writer (frame_at 5 1))
   \<and> reaches_state_machine
        (snd (process_frame (run_frames started (take 4 visit)) (no_writer (frame_at 5 1))))
        (frame_at 6 1)
   \<and> presence
        (snd (process_frame (run_frames started (take 4 visit)) (no_writer (frame_at 5 1))))
        (frame_at 6 1)
   \<and> status (snd (process_frame (run_frames started (take 4 visit)) (no_writer (frame_at 5 1))))
   \<and> entry_time (snd (process_frame (run_frames started (take 4 visit)) (no_writer (frame_at 5 1))))
        = Some ''entry''
   \<and> out (snd (process_frame (run_frames started (take 4 visit)) (no_writer (frame_at 5 1))))
        = None
   \<and> status (snd (process_frame
        (snd (process_frame (run_frames started (take 4 visit)) (no_writer (frame_at 5 1))))
        (frame_at 6 1)))
   \<and> \<not> recording_active (snd (process_frame
        (snd (process_frame (run_frames started (take 4 visit)) (no_writer (frame_at 5 1))))
        (frame_at 6 1)))"
proof -
  let ?s = "run_frames started (take 4 visit)"
  let ?env = "no_writer (frame_at 5 1)"
  let ?s' = "snd (process_frame ?s ?env)"
  note inst = entry_survives_writer_failure [of ?s ?env "frame_at 6 1"]
  have h1: "reachable ?s" by (intro reachable_run_frames reachable_started)
  have h2: "reaches_state_machine ?s ?env"
    unfolding run4 by (simp add: obs_defs frame_defs no_writer_def)
  have h3: "\<not> status ?s" unfolding run4 by simp
  have h4: "entry_level ?s ?env"
    unfolding run4 by (simp add: obs_defs frame_defs no_writer_def)
  have h5: "detection_thresh ?s \<noteq> 0" unfolding run4 by simp
  have h6: "writer_raises ?env" by (simp add: no_writer_def)
  have h7: "reaches_state_machine ?s' (frame_at 6 1)"
    unfolding run5_no_writer by (simp add: obs_defs frame_defs)
  have h8: "presence ?s' (frame_at 6 1)"
    unfolding run5_no_writer by (simp add: obs_defs frame_defs)
  have h9: "out ?s = None" unfolding run4 by simp
  have h10: "stamp ?env = ''entry''" by (simp add: no_writer_def frame_at_def)
  from inst h1 h2 h3 h4 h5 h6 h7 h8 have
    "status ?s' \<and> entry_time ?s' = Some (stamp ?env) \<and> out ?s' = out ?s
     \<and> status (snd (process_frame ?s' (frame_at 6 1)))
     \<and> \<not> recording_active (snd (process_frame ?s' (frame_at 6 1)))"
    by blast
  with h1 h2 h3 h4 h5 h6 h7 h8 h9 h10 show ?thesis by simp
qed

lemma one_slot:
  "snd (update_settings started 0.5 2000 5 1) =
     \<lparr>cap_opened = True, out = None, running = True,
       confidence_threshold = 0.5, detection_thresh = 1, patience = 5,
       area_threshold = 2000, status = False, initial_time = None,
       de = Deque [False] 1,
       person_count_history = Deque [] 30,
       detection_count = 0, entry_time = None, tracker = True,
       twilio_enabled = False, account_sid = [], auth_token = [],
       your_num = [], twilio_num = [],
       last_alert_time = 0, alert_cooldown = 300\<rparr>"
  by (simp add: started_eq update_settings_def py_int_def deque_of_def last_n_def Let_def)

theorem entry_transition_witness:
  "reaches_state_machine (run_frames started (take 4 visit)) (frame_at 5 1)
   \<and> \<not> status (run_frames started (take 4 visit))
   \<and> entry_level (run_frames started (take 4 visit)) (frame_at 5 1)
   \<and> detection_thresh (run_frames started (take 4 visit)) \<noteq> 0
   \<and> \<not> writer_raises (frame_at 5 1)
   \<and> status (snd (process_frame (run_frames started (take 4 visit)) (frame_at 5 1)))
   \<and> entry_time (snd (process_frame (run_frames started (take 4 visit)) (frame_at 5 1)))
        = Some ''entry''
   \<and> recording_active (snd (process_frame (run_frames started (take 4 visit)) (frame_at 5 1)))
   \<and> reaches_state_machine started (frame_at 1 1)
   \<and> \<not> status started \<and> \<not> entry_level started (frame_at 1 1)
   \<and> \<not> status (snd (process_frame started (frame_at 1 1)))
   \<and> reaches_state_machine (run_frames started (take 5 visit)) (frame_at 6 0)
   \<and> status (run_frames started (take 5 visit))
   \<and> entry_time (snd (process_frame (run_frames started (take 5 visit)) (frame_at 6 0)))
        = entry_time (run_frames started (take 5 visit))
   \<and> reaches_state_machine (snd (update_settings started 0.5 2000 5 1)) (frame_at 1 1)
   \<and> \<not> status (snd (update_settings started 0.5 2000 5 1))
   \<and> detection_thresh (snd (update_settings started 0.5 2000 5 1)) \<noteq> 0
   \<and> items (window (snd (update_settings started 0.5 2000 5 1)) (frame_at 1 1)) = [True]
   \<and> status (snd (process_frame (snd (update_settings started 0.5 2000 5 1)) (frame_at 1 1)))"
proof -
  let ?s4 = "run_frames started (take 4 visit)"
  let ?s5 = "run_frames started (take 5 visit)"
  let ?s1 = "snd (update_settings started 0.5 2000 5 1)"
  note a = entry_transition [of ?s4 "frame_at 5 1"]
  note b = entry_transition [of started "frame_at 1 1"]
  note c = entry_transition [of ?s5 "frame_at 6 0"]
  note d = entry_transition [of ?s1 "frame_at 1 1"]
  have a1: "reaches_state_machine ?s4 (frame_at 5 1)"
    unfolding run4 by (simp add: obs_defs frame_defs)
  have a2: "\<not> status ?s4" unfolding run4 by simp
  have a3: "entry_level ?s4 (frame_at 5 1)"
    unfolding run4 by (simp add: obs_defs frame_defs)
  have a4: "detection_thresh ?s4 \<noteq> 0" unfolding run4 by simp
  have a5: "\<not> writer_raises (frame_at 5 1)" by (simp add: frame_at_def)
  have a6: "stamp (frame_at 5 1) = ''entry''" by (simp add: frame_at_def)
  from a a1 a2 a3 a4 a5 have ra:
    "status (snd (process_frame ?s4 (frame_at 5 1)))
     \<and> entry_time (snd (process_frame ?s4 (frame_at 5 1))) = Some (stamp (frame_at 5 1))
     \<and> recording_active (snd (process_frame ?s4 (frame_at 5 1)))"
    by blast
  have b1: "reaches_state_machine started (frame_at 1 1)"
    unfolding started_eq by (simp add: obs_defs frame_defs)
  have b2: "\<not> status started" unfolding started_eq by simp
  have b3: "\<not> entry_level started (frame_at 1 1)"
    unfolding started_eq by (simp add: obs_defs frame_defs)
  from b b1 b2 b3 have rb: "\<not> status (snd (process_frame started (frame_at 1 1)))"
    by blast
  have c1: "reaches_state_machine ?s5 (frame_at 6 0)"
    unfolding run5 by (simp add: obs_defs frame_defs)
  have c2: "status ?s5" unfolding run5 by simp
  from c c1 c2 have rc:
    "entry_time (snd (process_frame ?s5 (frame_at 6 0))) = entry_time ?s5"
    by blast
  have d1: "reaches_state_machine ?s1 (frame_at 1 1)"
    unfolding one_slot by (simp add: obs_defs frame_defs)
  have d2: "\<not> status ?s1" unfolding one_slot by simp
  have d3: "detection_thresh ?s1 \<noteq> 0" unfolding one_slot by simp
  have d4: "items (window ?s1 (frame_at 1 1)) = [True]"
    unfolding one_slot by (simp add: obs_defs frame_defs)
  have d5: "\<forall>b\<in>set (items (window ?s1 (frame_at 1 1))). b" unfolding d4 by simp
  have d6: "detection_thresh ?s1 \<le> int (length (items (window ?s1 (frame_at 1 1))))"
    unfolding d4 unfolding one_slot by simp
  from d d1 d2 d3 d5 d6 have rd: "status (snd (process_frame ?s1 (frame_at 1 1)))"
    by blast
  from ra rb rc rd a1 a2 a3 a4 a5 a6 b1 b2 b3 c1 c2 d1 d2 d3 d4 show ?thesis
    by simp
qed

section \<open>One slot between grabber and consumer\<close>









end
